theory Spec2Isabelle
  imports Main
begin

section \<open>Data model\<close>

text \<open>
  The service-call form application (\<^verbatim>\<open>App\<close>, with \<^verbatim>\<open>handleSave\<close>,
  \<^verbatim>\<open>saveToLocalStorage\<close>, \<^verbatim>\<open>loadHistory\<close> and \<^verbatim>\<open>handleSubmit\<close>) is embedded
  as functions on an explicit world state: the React state of the component, the
  device's local storage entry for \<^verbatim>\<open>LOCAL_REPORTS_KEY\<close>, the cloud collection
  \<^verbatim>\<open>service_reports\<close>, the cloud blob store, and the log of the I/O calls issued so
  far.  What the outside
  world answers to one handler activation (does a cloud call throw, which id does the
  server assign, what does the clock read) is an argument of the handler.  A save
  is one step: the application has a single thread of control and the guard on the save
  status keeps a second save from running while one is in progress.  A submission is two
  steps, the second one after its upload has settled, and other handlers can run in
  between.
\<close>

subsection \<open>JavaScript values and objects\<close>

text \<open>
  A form record is a JavaScript object: a finite map from field names to values.  An
  absent field reads as \<^verbatim>\<open>undefined\<close>.  \<open>JTimestamp\<close> is a stored Firestore
  timestamp (its \<^verbatim>\<open>toMillis()\<close>), \<open>JServerTimestamp\<close> the sentinel returned by
  \<^verbatim>\<open>serverTimestamp()\<close>.
\<close>

datatype jsval =
    JNull
  | JStr string
  | JBool bool
  | JTimestamp int
  | JServerTimestamp

type_synonym FormData = "string \<rightharpoonup> jsval"

text \<open>\<^verbatim>\<open>!v\<close> for a field read: \<^verbatim>\<open>undefined\<close>, \<^verbatim>\<open>null\<close>, the empty string and \<^verbatim>\<open>false\<close>.\<close>

fun falsy :: "jsval option \<Rightarrow> bool" where
  "falsy None = True"
| "falsy (Some JNull) = True"
| "falsy (Some (JStr s)) = (s = [])"
| "falsy (Some (JBool b)) = (\<not> b)"
| "falsy (Some (JTimestamp t)) = False"
| "falsy (Some JServerTimestamp) = False"

text \<open>\<^verbatim>\<open>s.startsWith(p)\<close>\<close>

definition startsWith :: "string \<Rightarrow> string \<Rightarrow> bool" where
  "startsWith s p = (take (length p) s = p)"

text \<open>Decimal rendering of a number, as string concatenation with \<^verbatim>\<open>Date.now()\<close> does.\<close>

fun digits :: "nat \<Rightarrow> string" where
  "digits n = (if n < 10 then [char_of (48 + n)]
               else digits (n div 10) @ [char_of (48 + n mod 10)])"

declare digits.simps [simp del]

definition numToString :: "int \<Rightarrow> string" where
  "numToString i = (if i < 0 then CHR ''-'' # digits (nat (- i)) else digits (nat i))"

subsection \<open>Records of the application\<close>

record Technician =
  tech_id :: string
  name :: string
  vehicleNumber :: string
  pin :: string

record HistoryItem =
  item_id :: string
  timestamp :: int
  data :: FormData

record CloudDoc =
  doc_id :: string
  doc_data :: FormData

datatype SaveStatus = Idle | Saving | Success | Local

datatype exn = SyntaxError | TypeError | QuotaExceededError | FirebaseError | RenderError string

text \<open>
  The string stored under \<^verbatim>\<open>LOCAL_REPORTS_KEY\<close>: nothing (\<^verbatim>\<open>getItem\<close> returns
  \<^verbatim>\<open>null\<close>), the empty string, a string that \<^verbatim>\<open>JSON.parse\<close> rejects, a string
  that parses to a value that is not an array, or the serialised array of reports.
\<close>

datatype LocalStore = NoItem | EmptyString | Unparsable | NotAnArray | Stored "HistoryItem list"

text \<open>The I/O calls a handler issues, in order.\<close>

datatype Effect =
    Alert string
  | AddDoc FormData
  | UpdateDoc string FormData
  | GetDocs string
  | SetItem "HistoryItem list"
  | GeneratePDF FormData
  | UploadBytes string FormData
  | PdfSave string FormData
  | EmailPrompt string string

record AppState =
  currentUser :: "Technician option"
  formData :: FormData
  currentDocId :: "string option"
  isSubmitting :: bool
  saveStatus :: SaveStatus
  history :: "HistoryItem list"
  localReports :: LocalStore
  cloudReports :: "CloudDoc list"
  blobStore :: "(string \<times> FormData) list"
  effects :: "Effect list"

text \<open>
  The answers of the outside world during one handler activation.  The cloud document
  store, the blob store, the PDF library and the clock are external collaborators: a
  cloud call either throws or takes effect on \<open>cloudReports\<close>; \<open>addDocId\<close> is the id
  the server assigns when \<^verbatim>\<open>addDoc\<close> resolves (\<open>None\<close>: it throws).
\<close>

record Env =
  addDocId :: "string option"
  updateDocFails :: bool
  getDocsFails :: bool
  serverTime :: int
  setItemFails :: bool
  nowMint :: int
  nowLocal :: int
  nowHistory :: int
  nowSubmit :: int
  renderFails :: "string option"
  typeErrorMessage :: string
  storageOnline :: bool
  uploadFails :: bool

section \<open>History aggregation: \<^verbatim>\<open>loadHistory\<close>\<close>

text \<open>
  \<^verbatim>\<open>new Map(entries)\<close> sets the entries in order: a key already present keeps its
  position and takes the new value, a new key is appended.  \<^verbatim>\<open>.values()\<close> iterates
  in that order.
\<close>

fun map_set :: "('k \<times> 'v) list \<Rightarrow> 'k \<Rightarrow> 'v \<Rightarrow> ('k \<times> 'v) list" where
  "map_set [] k v = [(k, v)]"
| "map_set ((k', v') # m) k v =
     (if k' = k then (k, v) # m else (k', v') # map_set m k v)"

definition new_Map :: "('k \<times> 'v) list \<Rightarrow> ('k \<times> 'v) list" where
  "new_Map entries = foldl (\<lambda>m (k, v). map_set m k v) [] entries"

definition map_values :: "('k \<times> 'v) list \<Rightarrow> 'v list" where
  "map_values m = map snd m"

text \<open>
  Step 1: the local reports of the current user.  A missing or empty entry leaves the list
  empty (\<^verbatim>\<open>if (localData)\<close>); an exception while parsing or filtering is caught and
  logged.
\<close>

definition usersLocalReports :: "Technician \<Rightarrow> LocalStore \<Rightarrow> HistoryItem list" where
  "usersLocalReports u ls =
     (case ls of
        NoItem \<Rightarrow> []
      | EmptyString \<Rightarrow> []
      | Unparsable \<Rightarrow> []
      | NotAnArray \<Rightarrow> []
      | Stored parsed \<Rightarrow>
          filter (\<lambda>item. data item ''techId'' = Some (JStr (tech_id u))) parsed)"

text \<open>
  Step 2: the cloud query \<^verbatim>\<open>where('techId', '==', currentUser.id)\<close> and the mapping
  of each document to a history item, with
  \<^verbatim>\<open>doc.data().timestamp?.toMillis() || Date.now()\<close>.  A timestamp field that is not a
  timestamp has no \<^verbatim>\<open>toMillis\<close>: the call throws.
\<close>

definition queryDocs :: "string \<Rightarrow> CloudDoc list \<Rightarrow> CloudDoc list" where
  "queryDocs uid docs = filter (\<lambda>d. doc_data d ''techId'' = Some (JStr uid)) docs"

definition toHistoryItem :: "int \<Rightarrow> CloudDoc \<Rightarrow> HistoryItem option" where
  "toHistoryItem now d =
     (case doc_data d ''timestamp'' of
        None \<Rightarrow> Some \<lparr>item_id = doc_id d, timestamp = now, data = doc_data d\<rparr>
      | Some JNull \<Rightarrow> Some \<lparr>item_id = doc_id d, timestamp = now, data = doc_data d\<rparr>
      | Some (JTimestamp ms) \<Rightarrow>
          Some \<lparr>item_id = doc_id d, timestamp = (if ms = 0 then now else ms),
                data = doc_data d\<rparr>
      | Some _ \<Rightarrow> None)"

fun mapDocs :: "int \<Rightarrow> CloudDoc list \<Rightarrow> HistoryItem list option" where
  "mapDocs now [] = Some []"
| "mapDocs now (d # ds) =
     (case toHistoryItem now d of
        None \<Rightarrow> None
      | Some h \<Rightarrow> (case mapDocs now ds of None \<Rightarrow> None | Some hs \<Rightarrow> Some (h # hs)))"

text \<open>The cloud items, or \<open>None\<close> when the \<^verbatim>\<open>try\<close> block around the query throws.\<close>

definition cloudItems :: "Env \<Rightarrow> Technician \<Rightarrow> CloudDoc list \<Rightarrow> HistoryItem list option" where
  "cloudItems env u docs =
     (if getDocsFails env then None
      else mapDocs (nowHistory env) (queryDocs (tech_id u) docs))"

definition combinedHistory :: "Env \<Rightarrow> Technician \<Rightarrow> AppState \<Rightarrow> HistoryItem list" where
  "combinedHistory env u s =
     (case cloudItems env u (cloudReports s) of
        None \<Rightarrow> usersLocalReports u (localReports s)
      | Some cs \<Rightarrow> usersLocalReports u (localReports s) @ cs)"

text \<open>
  \<^verbatim>\<open>sort((a, b) => b.timestamp - a.timestamp)\<close> is a stable sort, descending by
  timestamp.
\<close>

definition sortNewestFirst :: "HistoryItem list \<Rightarrow> HistoryItem list" where
  "sortNewestFirst xs = sort_key (\<lambda>h. - timestamp h) xs"

definition uniqueHistory :: "HistoryItem list \<Rightarrow> HistoryItem list" where
  "uniqueHistory sorted_items =
     map_values (new_Map (map (\<lambda>item. (item_id item, item)) sorted_items))"

definition loadHistory :: "Env \<Rightarrow> AppState \<Rightarrow> AppState" where
  "loadHistory env s =
     (case currentUser s of
        None \<Rightarrow> s
      | Some u \<Rightarrow>
          s\<lparr>history := uniqueHistory (sortNewestFirst (combinedHistory env u s)),
            effects := effects s @ [GetDocs (tech_id u)]\<rparr>)"

section \<open>Saving: \<^verbatim>\<open>saveToLocalStorage\<close> and \<^verbatim>\<open>handleSave\<close>\<close>

text \<open>\<^verbatim>\<open>Array.prototype.findIndex\<close>: the first index that satisfies the test, or -1.\<close>

fun findIndex :: "('a \<Rightarrow> bool) \<Rightarrow> 'a list \<Rightarrow> int" where
  "findIndex P [] = - 1"
| "findIndex P (x # xs) =
     (if P x then 0 else (let i = findIndex P xs in if i < 0 then - 1 else i + 1))"

text \<open>
  \<^verbatim>\<open>{ ...data, techId: currentUser?.id }\<close>: with nobody logged in the field is
  \<^verbatim>\<open>undefined\<close>, which \<^verbatim>\<open>JSON.stringify\<close> drops.
\<close>

definition withTechId :: "Technician option \<Rightarrow> FormData \<Rightarrow> FormData" where
  "withTechId cu d =
     (case cu of None \<Rightarrow> d(''techId'' := None)
      | Some u \<Rightarrow> d(''techId'' \<mapsto> JStr (tech_id u)))"

definition upsertReport :: "HistoryItem \<Rightarrow> HistoryItem list \<Rightarrow> HistoryItem list" where
  "upsertReport newReport allReports =
     (let existingIndex = findIndex (\<lambda>r. item_id r = item_id newReport) allReports
      in if existingIndex \<ge> 0 then allReports[nat existingIndex := newReport]
         else allReports @ [newReport])"

text \<open>
  \<^verbatim>\<open>JSON.parse(localStorage.getItem(LOCAL_REPORTS_KEY) || '[]')\<close>, as far as
  \<^verbatim>\<open>saveToLocalStorage\<close> can go on with it: a missing and an empty entry read as the
  empty array; \<open>None\<close> when the function throws, which is a \<^verbatim>\<open>SyntaxError\<close> of the
  parse or, for a value that is not an array, the \<^verbatim>\<open>TypeError\<close> of the call of
  \<^verbatim>\<open>findIndex\<close>.
\<close>

definition parseReports :: "LocalStore \<Rightarrow> HistoryItem list option" where
  "parseReports ls =
     (case ls of
        NoItem \<Rightarrow> Some []
      | EmptyString \<Rightarrow> Some []
      | Unparsable \<Rightarrow> None
      | NotAnArray \<Rightarrow> None
      | Stored rs \<Rightarrow> Some rs)"

definition readError :: "LocalStore \<Rightarrow> exn" where
  "readError ls = (case ls of NotAnArray \<Rightarrow> TypeError | _ \<Rightarrow> SyntaxError)"

text \<open>
  \<^verbatim>\<open>saveToLocalStorage\<close> has no exception handler: an exception while reading the
  stored reports and a failing \<^verbatim>\<open>setItem\<close> (storage full or unavailable) leave the
  function as an exception, \<open>Inl\<close>.
\<close>

definition saveToLocalStorage ::
    "Env \<Rightarrow> FormData \<Rightarrow> string \<Rightarrow> AppState \<Rightarrow> exn + AppState" where
  "saveToLocalStorage env d ident s =
     (case parseReports (localReports s) of
        None \<Rightarrow> Inl (readError (localReports s))
      | Some allReports \<Rightarrow>
          (let newReport = \<lparr>item_id = ident, timestamp = nowLocal env,
                            data = withTechId (currentUser s) d\<rparr>;
               allReports' = upsertReport newReport allReports
           in if setItemFails env
              then Inl QuotaExceededError
              else Inr (s\<lparr>localReports := Stored allReports',
                          effects := effects s @ [SetItem allReports']\<rparr>)))"

text \<open>
  The two cloud writes.  \<^verbatim>\<open>addDoc\<close> stores the payload under the id the server
  assigns, the server filling in the timestamp.  \<^verbatim>\<open>updateDoc\<close> overwrites the given
  fields of an existing document and throws when there is no document with that id.
\<close>

definition addDoc :: "Env \<Rightarrow> FormData \<Rightarrow> AppState \<Rightarrow> string option \<times> AppState" where
  "addDoc env payload s =
     (let s' = s\<lparr>effects := effects s @ [AddDoc payload]\<rparr>
      in case addDocId env of
           None \<Rightarrow> (None, s')
         | Some newId \<Rightarrow>
             (Some newId,
              s'\<lparr>cloudReports := cloudReports s' @
                   [\<lparr>doc_id = newId,
                     doc_data = payload(''timestamp'' \<mapsto> JTimestamp (serverTime env))\<rparr>]\<rparr>))"

definition updateFields :: "string \<Rightarrow> FormData \<Rightarrow> CloudDoc \<Rightarrow> CloudDoc" where
  "updateFields ident payload d =
     (if doc_id d = ident then d\<lparr>doc_data := doc_data d ++ payload\<rparr> else d)"

definition updateDoc :: "Env \<Rightarrow> string \<Rightarrow> FormData \<Rightarrow> AppState \<Rightarrow> bool \<times> AppState" where
  "updateDoc env ident payload s =
     (let s' = s\<lparr>effects := effects s @ [UpdateDoc ident payload]\<rparr>
      in if updateDocFails env \<or> ident \<notin> set (map doc_id (cloudReports s))
         then (False, s')
         else (True,
               s'\<lparr>cloudReports :=
                    map (updateFields ident
                           (payload(''timestamp'' \<mapsto> JTimestamp (serverTime env))))
                        (cloudReports s')\<rparr>))"

text \<open>
  The cloud attempt inside the \<^verbatim>\<open>try\<close> block of \<^verbatim>\<open>handleSave\<close>: a create for an id
  with the local marker, an update by id otherwise.  \<open>Inl\<close> is the state in which the
  exception of the cloud call is caught, \<open>Inr\<close> the state when the call resolved.
\<close>

definition cloudAttempt :: "Env \<Rightarrow> Technician \<Rightarrow> string \<Rightarrow> AppState \<Rightarrow> AppState + AppState" where
  "cloudAttempt env u docId s =
     (if startsWith docId ''local_'' then
        (case addDoc env ((formData s)(''techId'' \<mapsto> JStr (tech_id u),
                                       ''timestamp'' \<mapsto> JServerTimestamp)) s of
           (None, s') \<Rightarrow> Inl s'
         | (Some newId, s') \<Rightarrow> Inr (s'\<lparr>currentDocId := Some newId\<rparr>))
      else
        (case updateDoc env docId ((formData s)(''timestamp'' \<mapsto> JServerTimestamp)) s of
           (False, s') \<Rightarrow> Inl s'
         | (True, s') \<Rightarrow> Inr s'))"

text \<open>
  \<^verbatim>\<open>handleSave\<close>.  The id is the bound one, or a fresh local draft id when the
  binding is \<^verbatim>\<open>null\<close> or empty (\<^verbatim>\<open>!docId\<close>).  The result pairs the exception
  that leaves the function, if any, with the state reached.  The timer that resets the
  status two seconds later is the separate step \<open>saveStatusTimeout\<close>.
\<close>

definition determineId :: "Env \<Rightarrow> string option \<Rightarrow> string" where
  "determineId env bound =
     (case bound of
        None \<Rightarrow> ''local_draft_'' @ numToString (nowMint env)
      | Some d \<Rightarrow> if d = [] then ''local_draft_'' @ numToString (nowMint env) else d)"

definition handleSave :: "Env \<Rightarrow> AppState \<Rightarrow> exn option \<times> AppState" where
  "handleSave env s =
     (case currentUser s of
        None \<Rightarrow> (None, s)
      | Some u \<Rightarrow>
          if saveStatus s \<noteq> Idle then (None, s)
          else
            (let docId = determineId env (currentDocId s);
                 s1 = s\<lparr>saveStatus := Saving, currentDocId := Some docId\<rparr>
             in case cloudAttempt env u docId s1 of
                  Inr s2 \<Rightarrow> (None, loadHistory env (s2\<lparr>saveStatus := Success\<rparr>))
                | Inl s2 \<Rightarrow>
                    (case saveToLocalStorage env (formData s) docId s2 of
                       Inl e \<Rightarrow> (Some e, s2)
                     | Inr s3 \<Rightarrow> (None, loadHistory env (s3\<lparr>saveStatus := Local\<rparr>)))))"

text \<open>
  A handler is a closure of the render in which it was created: it reads the state
  variables as they were in that render, while the device, the cloud and the state
  setters are the current ones.  A click on the save button runs the \<^verbatim>\<open>handleSave\<close>
  of the current render, which is \<open>handleSave\<close> above.  \<^verbatim>\<open>handleSubmit\<close> calls
  \<^verbatim>\<open>handleSave\<close> after it has awaited the upload, and other handlers can have run in
  between: \<open>handleSaveOf env c s\<close> is the \<^verbatim>\<open>handleSave\<close> of the render with state
  \<open>c\<close>, run when the state is \<open>s\<close>.  Its guard and its reads of
  \<^verbatim>\<open>currentUser\<close>, \<^verbatim>\<open>formData\<close> and \<^verbatim>\<open>currentDocId\<close> see \<open>c\<close>; what it
  reads and writes on the device and in the cloud, and what it sets with
  \<^verbatim>\<open>setSaveStatus\<close>, \<^verbatim>\<open>setCurrentDocId\<close> and \<^verbatim>\<open>setHistory\<close>, is in \<open>s\<close>;
  \<^verbatim>\<open>currentUser\<close> and \<^verbatim>\<open>formData\<close>, which it never sets, stay those of \<open>s\<close>.
\<close>

definition inRender :: "AppState \<Rightarrow> AppState \<Rightarrow> AppState" where
  "inRender c s = s\<lparr>currentUser := currentUser c, formData := formData c,
                     currentDocId := currentDocId c, saveStatus := saveStatus c\<rparr>"

definition handleSaveOf :: "Env \<Rightarrow> AppState \<Rightarrow> AppState \<Rightarrow> exn option \<times> AppState" where
  "handleSaveOf env c s =
     (case currentUser c of
        None \<Rightarrow> (None, s)
      | Some u \<Rightarrow>
          if saveStatus c \<noteq> Idle then (None, s)
          else (case handleSave env (inRender c s) of
                  (r, s') \<Rightarrow> (r, s'\<lparr>currentUser := currentUser s, formData := formData s\<rparr>)))"

definition saveStatusTimeout :: "AppState \<Rightarrow> AppState" where
  "saveStatusTimeout s = s\<lparr>saveStatus := Idle\<rparr>"

definition handleInputChange :: "string \<Rightarrow> jsval \<Rightarrow> AppState \<Rightarrow> AppState" where
  "handleInputChange field v s = s\<lparr>formData := (formData s)(field \<mapsto> v)\<rparr>"

section \<open>Submission: \<^verbatim>\<open>handleSubmit\<close> and \<^verbatim>\<open>handleOfflineSubmit\<close>\<close>

text \<open>
  \<^verbatim>\<open>shopName.replace(/\s+/g, '_')\<close>: every maximal run of white space becomes one
  underscore.  A character of a string is a code unit below 256 here; the white space of
  the regular expression in that range is tab, line feed, vertical tab, form feed,
  carriage return, space and the no-break space U+00A0 (the class has more members, all
  of them above 255: U+1680, U+2000 to U+200A, U+2028, U+2029, U+202F, U+205F, U+3000 and
  U+FEFF).
\<close>

definition isSpace :: "char \<Rightarrow> bool" where
  "isSpace c =
     (c \<in> set [CHR 0x09, CHR 0x0A, CHR 0x0B, CHR 0x0C, CHR 0x0D, CHR 0x20, CHR 0xA0])"

function replaceSpaces :: "string \<Rightarrow> string" where
  "replaceSpaces [] = []"
| "replaceSpaces (c # cs) =
     (if isSpace c then CHR ''_'' # replaceSpaces (dropWhile isSpace cs)
      else c # replaceSpaces cs)"
  by pat_completeness auto
termination
  by (relation "measure length") (auto simp: le_imp_less_Suc length_dropWhile_le)

text \<open>A value inside a template string.\<close>

fun toStr :: "jsval option \<Rightarrow> string" where
  "toStr None = ''undefined''"
| "toStr (Some JNull) = ''null''"
| "toStr (Some (JStr s)) = s"
| "toStr (Some (JBool b)) = (if b then ''true'' else ''false'')"
| "toStr (Some (JTimestamp t)) = ''[object Object]''"
| "toStr (Some JServerTimestamp) = ''[object Object]''"

text \<open>
  The file name.  \<^verbatim>\<open>formData.shopName.replace\<close> throws a \<^verbatim>\<open>TypeError\<close> when the
  field is not a string: \<open>None\<close>.
\<close>

definition fileNameOf :: "Env \<Rightarrow> FormData \<Rightarrow> string option" where
  "fileNameOf env d =
     (case d ''shopName'' of
        Some (JStr shop) \<Rightarrow>
          Some (''ServiceCall_'' @ replaceSpaces shop @ ''_'' @ numToString (nowSubmit env)
                @ ''.pdf'')
      | _ \<Rightarrow> None)"

text \<open>
  \<^verbatim>\<open>handleOfflineSubmit\<close> of the render with state \<open>c\<close>, run when the state is
  \<open>s\<close>: the download, the save (the \<^verbatim>\<open>handleSave\<close> of the same render; its promise is
  not awaited, so an exception of it reaches nobody), the email prompt set on a timer
  with the fields of the form of that render.
\<close>

definition emailSubject :: "FormData \<Rightarrow> string" where
  "emailSubject d =
     ''Service Call Sheet - '' @ toStr (d ''shopName'') @ '' - '' @ toStr (d ''date'')"

definition emailBody :: "FormData \<Rightarrow> string" where
  "emailBody d =
     ''Service Call Sheet attached.'' @ [CHR 0x0A, CHR 0x0A] @ ''Tech: ''
     @ toStr (d ''techName'') @ [CHR 0x0A] @ ''Shop: '' @ toStr (d ''shopName'')"

definition handleOfflineSubmit ::
    "Env \<Rightarrow> AppState \<Rightarrow> FormData \<Rightarrow> string \<Rightarrow> AppState \<Rightarrow> AppState" where
  "handleOfflineSubmit env c pdfDoc fileName s =
     (let s1 = s\<lparr>effects := effects s @ [PdfSave fileName pdfDoc]\<rparr>;
          s2 = snd (handleSaveOf env c s1)
      in s2\<lparr>effects := effects s2 @
                  [EmailPrompt (emailSubject (formData c)) (emailBody (formData c))],
            isSubmitting := False\<rparr>)"

definition alert :: "string \<Rightarrow> AppState \<Rightarrow> AppState" where
  "alert msg s = s\<lparr>effects := effects s @ [Alert msg]\<rparr>"

text \<open>
  \<^verbatim>\<open>handleSubmit\<close> runs in two parts when it uploads.  The first part, \<open>submitClick\<close>,
  goes from the click to the call of \<^verbatim>\<open>uploadBytes\<close>: the two checks, the file name,
  the rendering.  The PDF library is an external collaborator: \<open>renderFails\<close> is the
  message of the exception \<^verbatim>\<open>generatePDFBlob\<close> throws, if it throws; the artifact is
  represented by the record it was rendered from.  With \<^verbatim>\<open>navigator.onLine\<close> the
  handler then waits for the upload, and what is left of it is a \<open>Pending\<close> submission:
  the state of the render of the click, the file name and the path of the upload.
  Offline there is no upload and the handler goes on at once.
\<close>

record Pending =
  pendingRender :: AppState
  pendingFileName :: string
  pendingPath :: string

text \<open>
  The part after the upload attempt: \<^verbatim>\<open>handleOfflineSubmit\<close> and the
  \<^verbatim>\<open>finally\<close> block.
\<close>

definition afterUpload :: "Env \<Rightarrow> AppState \<Rightarrow> string \<Rightarrow> AppState \<Rightarrow> AppState" where
  "afterUpload env c fileName s =
     (handleOfflineSubmit env c (formData c) fileName s)\<lparr>isSubmitting := False\<rparr>"

definition submitClick :: "Env \<Rightarrow> AppState \<Rightarrow> AppState \<times> Pending option" where
  "submitClick env s =
     (if falsy (formData s ''techSignature'')
      then (alert ''Please sign the document before submitting.'' s, None)
      else
        (case currentUser s of
           None \<Rightarrow> (alert ''You must be logged in to submit.'' s, None)
         | Some u \<Rightarrow>
             (let s1 = s\<lparr>isSubmitting := True\<rparr>
              in case fileNameOf env (formData s) of
                   None \<Rightarrow>
                     ((alert (''Error generating document: '' @ typeErrorMessage env) s1)
                        \<lparr>isSubmitting := False\<rparr>, None)
                 | Some fileName \<Rightarrow>
                     (let s2 = s1\<lparr>effects := effects s1 @ [GeneratePDF (formData s)]\<rparr>
                      in case renderFails env of
                           Some msg \<Rightarrow>
                             ((alert (''Error generating document: '' @ msg) s2)
                                \<lparr>isSubmitting := False\<rparr>, None)
                         | None \<Rightarrow>
                             if storageOnline env then
                               (let path = ''service_sheets/'' @ tech_id u @ ''/'' @ fileName
                                in (s2\<lparr>effects := effects s2 @
                                          [UploadBytes path (formData s)]\<rparr>,
                                    Some \<lparr>pendingRender = s, pendingFileName = fileName,
                                          pendingPath = path\<rparr>))
                             else (afterUpload env s fileName s2, None)))))"

text \<open>
  The second part: the upload has settled.  A successful upload has stored the blob; an
  exception of \<^verbatim>\<open>uploadBytes\<close> is caught and logged, nothing else.  The state \<open>s\<close>
  is the one reached in the meantime.
\<close>

definition uploadSettled :: "Env \<Rightarrow> Pending \<Rightarrow> AppState \<Rightarrow> AppState" where
  "uploadSettled env p s =
     afterUpload env (pendingRender p) (pendingFileName p)
       (if uploadFails env then s
        else s\<lparr>blobStore := blobStore s @
                  [(pendingPath p, formData (pendingRender p))]\<rparr>)"

text \<open>A submission during which no other handler runs.\<close>

definition handleSubmit :: "Env \<Rightarrow> AppState \<Rightarrow> AppState" where
  "handleSubmit env s =
     (case submitClick env s of
        (s', None) \<Rightarrow> s'
      | (s', Some p) \<Rightarrow> uploadSettled env p s')"

text \<open>The I/O calls issued between two states of a run.\<close>

definition newEffects :: "AppState \<Rightarrow> AppState \<Rightarrow> Effect list" where
  "newEffects s s' = drop (length (effects s)) (effects s')"

text \<open>
  The outcome \<open>t\<close> of a submission of the render \<open>c\<close> of technician \<open>u\<close> that went on
  from the state \<open>s\<close> and saved on the device, the local reports having been \<open>rs\<close>: the
  document was handed over for download, no alert was shown, the submission is over, the
  status is \<^verbatim>\<open>local\<close>, the binding is the id determined from the binding of \<open>c\<close>, the
  form of \<open>c\<close> with the technician's id was upserted under that id, and the cloud
  collection is as it was.
\<close>

fun isAlert :: "Effect \<Rightarrow> bool" where
  "isAlert (Alert msg) = True"
| "isAlert e = False"

definition submittedLocally ::
    "Env \<Rightarrow> Technician \<Rightarrow> AppState \<Rightarrow> string \<Rightarrow> HistoryItem list \<Rightarrow> AppState \<Rightarrow> AppState
     \<Rightarrow> bool" where
  "submittedLocally env u c fileName rs s t =
     (PdfSave fileName (formData c) \<in> set (newEffects s t)
      \<and> filter isAlert (newEffects s t) = []
      \<and> \<not> isSubmitting t \<and> saveStatus t = Local
      \<and> currentDocId t = Some (determineId env (currentDocId c))
      \<and> localReports t =
          Stored (upsertReport \<lparr>item_id = determineId env (currentDocId c),
                    timestamp = nowLocal env,
                    data = (formData c)(''techId'' \<mapsto> JStr (tech_id u))\<rparr> rs)
      \<and> cloudReports t = cloudReports s)"

text \<open>Two states with the same effect of a save.\<close>

definition sameSave :: "AppState \<Rightarrow> AppState \<Rightarrow> bool" where
  "sameSave t t' =
     (localReports t = localReports t' \<and> cloudReports t = cloudReports t'
      \<and> currentDocId t = currentDocId t' \<and> saveStatus t = saveStatus t'
      \<and> history t = history t')"

section \<open>Sessions\<close>

text \<open>
  A session without logout, new draft, load or delete: the technician edits fields,
  presses save and presses submit, the timer of an earlier save fires, and the upload of
  a submission settles.  The submit button is disabled while a submission is under way.
  The state of a session is the state of the application and the pending submission.
\<close>

datatype Event =
    SaveClick Env
  | StatusTimeout
  | InputChange string jsval
  | SubmitClick Env
  | UploadSettled Env

fun step :: "AppState \<times> Pending option \<Rightarrow> Event \<Rightarrow> AppState \<times> Pending option" where
  "step (s, p) (SaveClick env) = (snd (handleSave env s), p)"
| "step (s, p) StatusTimeout = (saveStatusTimeout s, p)"
| "step (s, p) (InputChange field v) = (handleInputChange field v s, p)"
| "step (s, p) (SubmitClick env) = (if isSubmitting s then (s, p) else submitClick env s)"
| "step (s, None) (UploadSettled env) = (s, None)"
| "step (s, Some q) (UploadSettled env) = (uploadSettled env q s, None)"

definition runFrom :: "Event list \<Rightarrow> AppState \<times> Pending option \<Rightarrow> AppState \<times> Pending option" where
  "runFrom evs cfg = foldl step cfg evs"

definition run :: "Event list \<Rightarrow> AppState \<Rightarrow> AppState" where
  "run evs s = fst (runFrom evs (s, None))"

fun isSubmission :: "Event \<Rightarrow> bool" where
  "isSubmission (SubmitClick env) = True"
| "isSubmission (UploadSettled env) = True"
| "isSubmission e = False"

text \<open>The cloud writes among them, and the payloads of those writes.\<close>

fun isCloudWrite :: "Effect \<Rightarrow> bool" where
  "isCloudWrite (AddDoc p) = True"
| "isCloudWrite (UpdateDoc i p) = True"
| "isCloudWrite e = False"

definition cloudWrites :: "Effect list \<Rightarrow> Effect list" where
  "cloudWrites es = filter isCloudWrite es"


text \<open>Every cloud call of the activation throws.\<close>

definition cloudDown :: "Env \<Rightarrow> bool" where
  "cloudDown env = (addDocId env = None \<and> updateDocFails env \<and> getDocsFails env)"

text \<open>The answers to the first save of a session that goes on with one more save.\<close>

fun firstSaveEnv :: "Event list \<Rightarrow> Env \<Rightarrow> Env" where
  "firstSaveEnv [] env' = env'"
| "firstSaveEnv (SaveClick env # evs) env' = env"
| "firstSaveEnv (e # evs) env' = firstSaveEnv evs env'"

fun saveEnvs :: "Event list \<Rightarrow> Env list" where
  "saveEnvs [] = []"
| "saveEnvs (SaveClick env # evs) = env # saveEnvs evs"
| "saveEnvs (e # evs) = saveEnvs evs"

text \<open>
  What stays true along a session of saves, edits and timers in which the cloud is down
  for every save: the technician, the cloud collection, local reports that can be read
  and have pairwise distinct ids, and a binding that is empty until the first save and
  the id minted by that save afterwards.
\<close>

definition session_inv :: "Technician \<Rightarrow> AppState \<Rightarrow> Event list \<Rightarrow> AppState \<Rightarrow> bool" where
  "session_inv u s0 evs s =
     (currentUser s = Some u \<and> cloudReports s = cloudReports s0
      \<and> (\<exists>rs. parseReports (localReports s) = Some rs \<and> distinct (map item_id rs))
      \<and> (case saveEnvs evs of
            [] \<Rightarrow> currentDocId s = None \<and> saveStatus s = Idle
          | e # es \<Rightarrow> currentDocId s = Some (''local_draft_'' @ numToString (nowMint e))))"

section \<open>Concrete sessions\<close>

text \<open>
  The initial form (\<^verbatim>\<open>INITIAL_DATA\<close>, the date fields being today's date), the first
  technician of the built-in list, and a session that starts right after login: no
  document bound, nothing stored on the device or in the cloud.
\<close>

definition INITIAL_DATA :: "string \<Rightarrow> FormData" where
  "INITIAL_DATA today = map_of
     [(''callType'', JNull), (''shopName'', JStr []), (''systemType'', JStr []),
      (''terminalNumber'', JStr []), (''date'', JStr today), (''arrivalTime'', JStr []),
      (''departureTime'', JStr []), (''vehicleNumber'', JStr []), (''techName'', JStr []),
      (''faultReported'', JStr []), (''faultEncountered'', JStr []),
      (''repairsMade'', JStr []), (''partsUsed'', JStr []), (''otherComments'', JStr []),
      (''agentAssessment'', JNull), (''techSignature'', JNull), (''agentSignature'', JNull),
      (''techSignDate'', JStr today), (''agentSignDate'', JStr today),
      (''officialDispatcherSignature'', JNull), (''officialDispatcherDate'', JStr []),
      (''receiptImage'', JNull)]"

definition sampleTech :: Technician where
  "sampleTech = \<lparr>tech_id = ''1'', name = ''Reon Samuel'', vehicleNumber = ''C-104'',
                  pin = ''123456''\<rparr>"

definition acmeForm :: FormData where
  "acmeForm = (INITIAL_DATA ''2026-01-05'')
     (''shopName'' \<mapsto> JStr ''Acme'', ''techName'' \<mapsto> JStr ''Reon Samuel'',
      ''vehicleNumber'' \<mapsto> JStr ''C-104'')"

definition sampleSignature :: jsval where
  "sampleSignature = JStr ''data:image/png;base64,iVBORw0KGgo=''"

definition freshSession :: AppState where
  "freshSession =
     \<lparr>currentUser = Some sampleTech, formData = acmeForm, currentDocId = None,
      isSubmitting = False, saveStatus = Idle, history = [], localReports = NoItem,
      cloudReports = [], blobStore = [], effects = []\<rparr>"

text \<open>An activation during which every cloud call throws, and one during which all work.\<close>

definition cloudFailing :: Env where
  "cloudFailing =
     \<lparr>addDocId = None, updateDocFails = True, getDocsFails = True, serverTime = 0,
      setItemFails = False, nowMint = 1000, nowLocal = 1001, nowHistory = 1002,
      nowSubmit = 999, renderFails = None, typeErrorMessage = [],
      storageOnline = True, uploadFails = True\<rparr>"

definition cloudWorking :: Env where
  "cloudWorking =
     \<lparr>addDocId = Some ''Zx81QmT4'', updateDocFails = False, getDocsFails = False,
      serverTime = 5000, setItemFails = False, nowMint = 4000, nowLocal = 4001,
      nowHistory = 4002, nowSubmit = 3999, renderFails = None, typeErrorMessage = [],
      storageOnline = True, uploadFails = False\<rparr>"

text \<open>The cloud is unreachable and the device's storage is full.\<close>

definition storageFull :: Env where
  "storageFull = cloudFailing\<lparr>setItemFails := True\<rparr>"

text \<open>
  The session after a first save that reached the cloud and the reset of the status; the
  same with a first save that fell back to the device; and the session after a save that
  fell back to the device, before the reset of the status, the technician having signed
  in the meantime.
\<close>

definition boundToCloud :: AppState where
  "boundToCloud = run [SaveClick cloudWorking, StatusTimeout] freshSession"

definition boundToDraft :: AppState where
  "boundToDraft = run [SaveClick cloudFailing, StatusTimeout] freshSession"

definition justSaved :: AppState where
  "justSaved =
     run [SaveClick cloudFailing, InputChange ''techSignature'' sampleSignature] freshSession"

definition signedSession :: AppState where
  "signedSession = run [InputChange ''techSignature'' sampleSignature] freshSession"

text \<open>
  A technician with two documents.  The first was saved to the cloud at time 1, the
  second at time 5; at time 10 the first was saved again while the cloud write failed,
  which left a copy under its cloud id on the device.
\<close>

definition localCopy :: HistoryItem where
  "localCopy = \<lparr>item_id = ''Zx81QmT4'', timestamp = 10,
                 data = acmeForm(''techId'' \<mapsto> JStr ''1'')\<rparr>"

definition cloudCopy :: CloudDoc where
  "cloudCopy = \<lparr>doc_id = ''Zx81QmT4'',
                 doc_data = acmeForm(''techId'' \<mapsto> JStr ''1'',
                                     ''timestamp'' \<mapsto> JTimestamp 1)\<rparr>"

definition otherDoc :: CloudDoc where
  "otherDoc = \<lparr>doc_id = ''Yq20LmB7'',
                doc_data = acmeForm(''shopName'' \<mapsto> JStr ''Bolt'', ''techId'' \<mapsto> JStr ''1'',
                                    ''timestamp'' \<mapsto> JTimestamp 5)\<rparr>"

definition twoDocuments :: AppState where
  "twoDocuments =
     \<lparr>currentUser = Some sampleTech, formData = acmeForm, currentDocId = Some ''Zx81QmT4'',
      isSubmitting = False, saveStatus = Idle, history = [],
      localReports = Stored [localCopy], cloudReports = [cloudCopy, otherDoc],
      blobStore = [], effects = []\<rparr>"

text \<open>
  A later activation with the cloud still down; the submission of the signed form that
  waits for its upload; and the state reached when the technician has pressed save in
  the meantime, with the report that save has stored.
\<close>

definition laterFailing :: Env where
  "laterFailing = cloudFailing\<lparr>nowMint := 2000, nowLocal := 2001, nowHistory := 2002\<rparr>"

definition signedPending :: Pending where
  "signedPending =
     \<lparr>pendingRender = signedSession, pendingFileName = ''ServiceCall_Acme_999.pdf'',
      pendingPath = ''service_sheets/1/ServiceCall_Acme_999.pdf''\<rparr>"

definition savedMeanwhile :: AppState where
  "savedMeanwhile = run [SubmitClick cloudFailing, SaveClick cloudFailing] signedSession"

definition firstDraft :: HistoryItem where
  "firstDraft = \<lparr>item_id = ''local_draft_1000'', timestamp = 1001,
                  data = (formData signedSession)(''techId'' \<mapsto> JStr ''1'')\<rparr>"

section \<open>Auxiliary facts\<close>

subsection \<open>The history view\<close>

lemma map_set_keys:
  "map fst (map_set m k v) = (if k \<in> fst ` set m then map fst m else map fst m @ [k])"
  by (induction m k v rule: map_set.induct) auto

lemma map_set_subset: "set (map_set m k v) \<subseteq> insert (k, v) (set m)"
  by (induction m k v rule: map_set.induct) auto

lemma foldl_map_set_distinct:
  "distinct (map fst m) \<Longrightarrow> distinct (map fst (foldl (\<lambda>m (k, v). map_set m k v) m es))"
  by (induction es arbitrary: m) (auto simp: map_set_keys)

lemma foldl_map_set_keys:
  "fst ` set (foldl (\<lambda>m (k, v). map_set m k v) m es) = fst ` set m \<union> fst ` set es"
proof (induction es arbitrary: m)
  case Nil
  show ?case by simp
next
  case (Cons e es)
  obtain k v where e: "e = (k, v)" by (cases e)
  have "set (map fst (map_set m k v)) = insert k (fst ` set m)"
    by (auto simp: map_set_keys)
  then have "fst ` set (map_set m k v) = insert k (fst ` set m)" by simp
  with Cons e show ?case by auto
qed

lemma foldl_map_set_subset:
  "set (foldl (\<lambda>m (k, v). map_set m k v) m es) \<subseteq> set m \<union> set es"
proof (induction es arbitrary: m)
  case Nil
  show ?case by simp
next
  case (Cons e es)
  obtain k v where e: "e = (k, v)" by (cases e)
  show ?case using Cons [of "map_set m k v"] map_set_subset [of m k v] e by auto
qed

lemma new_Map_distinct: "distinct (map fst (new_Map es))"
  by (simp add: new_Map_def foldl_map_set_distinct)

lemma new_Map_keys: "fst ` set (new_Map es) = fst ` set es"
  by (simp add: new_Map_def foldl_map_set_keys)

lemma new_Map_subset: "set (new_Map es) \<subseteq> set es"
  using foldl_map_set_subset [of "[]" es] by (simp add: new_Map_def)

lemma uniqueHistory_ids:
  "map item_id (uniqueHistory xs) = map fst (new_Map (map (\<lambda>item. (item_id item, item)) xs))"
proof -
  have "\<forall>p \<in> set (new_Map (map (\<lambda>item. (item_id item, item)) xs)). item_id (snd p) = fst p"
    using new_Map_subset [of "map (\<lambda>item. (item_id item, item)) xs"] by auto
  then show ?thesis
    by (simp add: uniqueHistory_def map_values_def)
qed

lemma uniqueHistory_distinct: "distinct (map item_id (uniqueHistory xs))"
  by (simp add: uniqueHistory_ids new_Map_distinct)

lemma uniqueHistory_id_set: "item_id ` set (uniqueHistory xs) = item_id ` set xs"
proof -
  have "item_id ` set (uniqueHistory xs) = set (map item_id (uniqueHistory xs))" by simp
  also have "\<dots> = fst ` set (new_Map (map (\<lambda>item. (item_id item, item)) xs))"
    by (simp only: uniqueHistory_ids set_map)
  also have "\<dots> = item_id ` set xs"
    by (simp add: new_Map_keys image_image)
  finally show ?thesis .
qed

lemma uniqueHistory_subset: "set (uniqueHistory xs) \<subseteq> set xs"
  using new_Map_subset [of "map (\<lambda>item. (item_id item, item)) xs"]
  by (auto simp: uniqueHistory_def map_values_def)

lemma distinct_filter_single:
  "distinct (map f xs) \<Longrightarrow> x \<in> set xs \<Longrightarrow> filter (\<lambda>y. f y = f x) xs = [x]"
proof (induction xs)
  case Nil
  then show ?case by simp
next
  case (Cons a xs)
  show ?case
  proof (cases "a = x")
    case True
    with Cons.prems have "f x \<notin> f ` set xs" by simp
    then have "\<forall>y \<in> set xs. f y \<noteq> f x" by (metis imageI)
    then have "filter (\<lambda>y. f y = f x) xs = []" by (simp add: filter_empty_conv)
    with True show ?thesis by simp
  next
    case False
    with Cons.prems have "x \<in> set xs" "f a \<noteq> f x" by auto
    with Cons show ?thesis by auto
  qed
qed

lemma set_sortNewestFirst: "set (sortNewestFirst xs) = set xs"
  by (simp add: sortNewestFirst_def)

lemma history_single:
  assumes "h \<in> set xs"
  shows "\<exists>g \<in> set xs.
           filter (\<lambda>y. item_id y = item_id h) (uniqueHistory (sortNewestFirst xs)) = [g]"
proof -
  have "item_id h \<in> item_id ` set (uniqueHistory (sortNewestFirst xs))"
    using assms by (simp add: uniqueHistory_id_set set_sortNewestFirst)
  then obtain g where g: "g \<in> set (uniqueHistory (sortNewestFirst xs))" "item_id g = item_id h"
    by auto
  have "g \<in> set xs" using g(1) uniqueHistory_subset set_sortNewestFirst by blast
  moreover have "filter (\<lambda>y. item_id y = item_id h) (uniqueHistory (sortNewestFirst xs)) = [g]"
    using distinct_filter_single [OF uniqueHistory_distinct g(1)] g(2) by simp
  ultimately show ?thesis by blast
qed

text \<open>Without two items of one id the view is the sorted list itself.\<close>

lemma map_set_new: "k \<notin> fst ` set m \<Longrightarrow> map_set m k v = m @ [(k, v)]"
  by (induction m k v rule: map_set.induct) auto

lemma foldl_map_set_fresh:
  "distinct (map fst (m @ es)) \<Longrightarrow> foldl (\<lambda>m (k, v). map_set m k v) m es = m @ es"
proof (induction es arbitrary: m)
  case Nil
  show ?case by simp
next
  case (Cons e es)
  obtain k v where e: "e = (k, v)" by (cases e)
  from Cons.prems e have new: "k \<notin> fst ` set m" by auto
  from Cons.prems e have "distinct (map fst ((m @ [(k, v)]) @ es))" by simp
  from Cons.IH [OF this] show ?case by (simp add: e map_set_new [OF new])
qed

lemma uniqueHistory_distinct_id:
  "distinct (map item_id xs) \<Longrightarrow> uniqueHistory xs = xs"
proof -
  assume "distinct (map item_id xs)"
  then have "distinct (map fst ([] @ map (\<lambda>item. (item_id item, item)) xs))"
    by (simp add: comp_def)
  from foldl_map_set_fresh [OF this] show ?thesis
    by (simp add: uniqueHistory_def new_Map_def map_values_def comp_def)
qed

lemma sortNewestFirst_sorted:
  "sorted_wrt (\<lambda>a b. timestamp a \<ge> timestamp b) (sortNewestFirst xs)"
proof -
  have "sorted (map (\<lambda>h. - timestamp h) (sortNewestFirst xs))"
    by (simp add: sortNewestFirst_def)
  then show ?thesis
    by (simp add: sorted_map)
qed

lemma loadHistory_sorted_if_distinct:
  assumes "currentUser s = Some u"
    and "distinct (map item_id (combinedHistory env u s))"
  shows "sorted_wrt (\<lambda>a b. timestamp a \<ge> timestamp b) (history (loadHistory env s))"
proof -
  have "distinct (map item_id (sortNewestFirst (combinedHistory env u s)))"
    using assms(2) by (simp add: distinct_map sortNewestFirst_def)
  then show ?thesis
    using assms(1) sortNewestFirst_sorted
    by (simp add: loadHistory_def uniqueHistory_distinct_id)
qed

subsection \<open>The save operation\<close>

lemma findIndex_bounds: "- 1 \<le> findIndex P xs \<and> findIndex P xs < int (length xs)"
  by (induction xs) (auto simp: Let_def)

lemma upsertReport_Nil: "upsertReport n [] = [n]"
  by (simp add: upsertReport_def)

lemma upsertReport_Cons:
  "upsertReport n (r # rs) =
     (if item_id r = item_id n then n # rs else r # upsertReport n rs)"
proof (cases "item_id r = item_id n")
  case True
  then show ?thesis by (simp add: upsertReport_def)
next
  case False
  show ?thesis
  proof (cases "findIndex (\<lambda>x. item_id x = item_id n) rs < 0")
    case True
    with False show ?thesis by (simp add: upsertReport_def Let_def)
  next
    case False
    then have "nat (findIndex (\<lambda>x. item_id x = item_id n) rs + 1)
               = Suc (nat (findIndex (\<lambda>x. item_id x = item_id n) rs))"
      by simp
    with False \<open>item_id r \<noteq> item_id n\<close> show ?thesis
      by (simp add: upsertReport_def Let_def)
  qed
qed

lemma upsertReport_mem: "r \<in> set (upsertReport r rs)"
  by (induction rs) (auto simp: upsertReport_Nil upsertReport_Cons)

lemma upsertReport_others:
  "filter (\<lambda>r. item_id r \<noteq> item_id n) (upsertReport n rs) =
     filter (\<lambda>r. item_id r \<noteq> item_id n) rs"
  by (induction rs) (auto simp: upsertReport_Nil upsertReport_Cons)

lemma upsertReport_one:
  "distinct (map item_id rs) \<Longrightarrow>
     filter (\<lambda>r. item_id r = item_id n) (upsertReport n rs) = [n]"
proof (induction rs)
  case Nil
  show ?case by (simp add: upsertReport_Nil)
next
  case (Cons r rs)
  show ?case
  proof (cases "item_id r = item_id n")
    case True
    with Cons.prems have "item_id n \<notin> item_id ` set rs" by simp
    then have "\<forall>x \<in> set rs. item_id x \<noteq> item_id n" by (metis imageI)
    then have "filter (\<lambda>x. item_id x = item_id n) rs = []" by (simp add: filter_empty_conv)
    with True show ?thesis by (simp add: upsertReport_Cons)
  next
    case False
    with Cons show ?thesis by (simp add: upsertReport_Cons)
  qed
qed

lemma upsertReport_ids:
  "set (map item_id (upsertReport n rs)) = insert (item_id n) (set (map item_id rs))"
  by (induction rs) (auto simp: upsertReport_Nil upsertReport_Cons)

lemma upsertReport_distinct:
  "distinct (map item_id rs) \<Longrightarrow> distinct (map item_id (upsertReport n rs))"
proof (induction rs)
  case Nil
  show ?case by (simp add: upsertReport_Nil)
next
  case (Cons r rs)
  then have "item_id r \<notin> set (map item_id (upsertReport n rs))" if "item_id r \<noteq> item_id n"
    using that by (simp only: upsertReport_ids) auto
  with Cons show ?case by (auto simp: upsertReport_Cons)
qed

lemma upsertReport_length:
  "length (upsertReport n rs) =
     (if item_id n \<in> item_id ` set rs then length rs else Suc (length rs))"
  by (induction rs) (auto simp: upsertReport_Nil upsertReport_Cons)


lemma effects_loadHistory:
  "effects (loadHistory env s) =
     effects s @ (case currentUser s of None \<Rightarrow> [] | Some u \<Rightarrow> [GetDocs (tech_id u)])"
  by (simp add: loadHistory_def split: option.splits)

lemma loadHistory_fields [simp]:
  "currentUser (loadHistory env s) = currentUser s"
  "formData (loadHistory env s) = formData s"
  "currentDocId (loadHistory env s) = currentDocId s"
  "isSubmitting (loadHistory env s) = isSubmitting s"
  "saveStatus (loadHistory env s) = saveStatus s"
  "localReports (loadHistory env s) = localReports s"
  "cloudReports (loadHistory env s) = cloudReports s"
  "blobStore (loadHistory env s) = blobStore s"
  by (simp_all add: loadHistory_def split: option.splits)


text \<open>
  An update that names no \<^verbatim>\<open>techId\<close> leaves the one of the stored document as it is.
\<close>

lemma updateFields_techId:
  "payload ''techId'' = None \<Longrightarrow>
     doc_data (updateFields ident payload d) ''techId'' = doc_data d ''techId''"
  by (simp add: updateFields_def map_add_def)

text \<open>
  An exception leaves \<^verbatim>\<open>handleSave\<close> only from the local fallback, and the status
  is then still the one of a save in progress.
\<close>

lemma handleSave_throws_only_local:
  assumes "fst (handleSave env s) = Some e"
  shows "((parseReports (localReports s) = None \<and> e = readError (localReports s))
          \<or> (setItemFails env \<and> e = QuotaExceededError))
       \<and> saveStatus (snd (handleSave env s)) = Saving"
  using assms
  by (auto simp: handleSave_def cloudAttempt_def addDoc_def updateDoc_def saveToLocalStorage_def
      Let_def split: option.splits if_splits)

text \<open>A binding to a cloud id survives every save, whatever the cloud answers.\<close>

lemma handleSave_cloud_id_stable:
  assumes "currentDocId s = Some d" and "d \<noteq> []" and "\<not> startsWith d ''local_''"
  shows "currentDocId (snd (handleSave env s)) = Some d"
  using assms
  by (auto simp: handleSave_def determineId_def cloudAttempt_def addDoc_def updateDoc_def
      saveToLocalStorage_def Let_def split: option.splits)

text \<open>
  What a save that passes the guard writes: a cloud create and a local upsert carry the
  technician's id; the fields of a cloud update are the fields of the form and the server
  timestamp, nothing else.
\<close>

lemma upsertReport_has:
  "\<exists>r \<in> set (upsertReport \<lparr>item_id = i, timestamp = t, data = d\<rparr> rs).
      item_id r = i \<and> data r = d"
  using upsertReport_mem [of "\<lparr>item_id = i, timestamp = t, data = d\<rparr>" rs] by force

lemma handleSave_payloads:
  assumes "currentUser s = Some u" and "saveStatus s = Idle"
  shows "(\<forall>p. AddDoc p \<in> set (newEffects s (snd (handleSave env s)))
            \<longrightarrow> p ''techId'' = Some (JStr (tech_id u)))
       \<and> (\<forall>rs. SetItem rs \<in> set (newEffects s (snd (handleSave env s)))
            \<longrightarrow> (\<exists>r \<in> set rs. Some (item_id r) = currentDocId (snd (handleSave env s))
                   \<and> data r = (formData s)(''techId'' \<mapsto> JStr (tech_id u))))
       \<and> (\<forall>i p. UpdateDoc i p \<in> set (newEffects s (snd (handleSave env s)))
            \<longrightarrow> p = (formData s)(''timestamp'' \<mapsto> JServerTimestamp))"
  using assms
  by (auto simp: handleSave_def cloudAttempt_def addDoc_def updateDoc_def saveToLocalStorage_def
      Let_def withTechId_def newEffects_def effects_loadHistory upsertReport_has
      split: option.splits)

text \<open>One save that takes effect while every cloud call throws.\<close>

lemma save_cloud_down:
  assumes "currentUser s = Some u" and "saveStatus s = Idle"
    and "cloudDown env" and "\<not> setItemFails env"
    and "parseReports (localReports s) = Some rs"
  shows "fst (handleSave env s) = None"
    and "saveStatus (snd (handleSave env s)) = Local"
    and "currentDocId (snd (handleSave env s)) = Some (determineId env (currentDocId s))"
    and "localReports (snd (handleSave env s)) =
           Stored (upsertReport \<lparr>item_id = determineId env (currentDocId s),
                     timestamp = nowLocal env,
                     data = (formData s)(''techId'' \<mapsto> JStr (tech_id u))\<rparr> rs)"
    and "cloudReports (snd (handleSave env s)) = cloudReports s"
    and "currentUser (snd (handleSave env s)) = Some u"
    and "formData (snd (handleSave env s)) = formData s"
    and "history (snd (handleSave env s)) =
           uniqueHistory (sortNewestFirst
             (usersLocalReports u (localReports (snd (handleSave env s)))))"
    and "\<exists>w rs'. isCloudWrite w \<and>
           effects (snd (handleSave env s)) = effects s @ [w, SetItem rs', GetDocs (tech_id u)]"
  using assms
  by (auto simp: handleSave_def cloudAttempt_def addDoc_def updateDoc_def saveToLocalStorage_def
      Let_def cloudDown_def withTechId_def loadHistory_def combinedHistory_def
      cloudItems_def
      split: option.splits)


text \<open>
  The \<^verbatim>\<open>handleSave\<close> of a render: what it leaves alone, and that on the state of its
  own render it is the save of a click.
\<close>

lemma handleSave_frame:
  "currentUser (snd (handleSave env s)) = currentUser s"
  "formData (snd (handleSave env s)) = formData s"
  "isSubmitting (snd (handleSave env s)) = isSubmitting s"
  "blobStore (snd (handleSave env s)) = blobStore s"
  by (auto simp: handleSave_def cloudAttempt_def addDoc_def updateDoc_def saveToLocalStorage_def
      loadHistory_def Let_def split: option.splits)

lemma handleSaveOf_current: "handleSaveOf env s s = handleSave env s"
proof -
  have i: "inRender s s = s" by (simp add: inRender_def)
  obtain r s' where h: "handleSave env s = (r, s')" by (cases "handleSave env s")
  have "currentUser s' = currentUser s" "formData s' = formData s"
    using handleSave_frame(1,2) [of env s] h by simp_all
  then have "s'\<lparr>currentUser := currentUser s, formData := formData s\<rparr> = s'" by simp
  with h i show ?thesis
    by (auto simp: handleSaveOf_def handleSave_def split: option.splits)
qed

text \<open>
  What a save does to the stores, the binding, the status and the history depends on
  nothing but the state variables it reads, the stores and the history.
\<close>

lemma handleSave_sameSave:
  assumes "currentUser s = currentUser s'" and "formData s = formData s'"
    and "currentDocId s = currentDocId s'" and "saveStatus s = saveStatus s'"
    and "localReports s = localReports s'" and "cloudReports s = cloudReports s'"
    and "history s = history s'"
  shows "sameSave (snd (handleSave env s)) (snd (handleSave env s'))"
  using assms
  by (auto simp: sameSave_def handleSave_def cloudAttempt_def addDoc_def updateDoc_def
      saveToLocalStorage_def loadHistory_def combinedHistory_def Let_def
      split: option.splits)

lemma handleSaveOf_sameSave:
  assumes "localReports s = localReports s'" and "cloudReports s = cloudReports s'"
    and "currentDocId s = currentDocId s'" and "saveStatus s = saveStatus s'"
    and "history s = history s'"
  shows "sameSave (snd (handleSaveOf env c s)) (snd (handleSaveOf env c s'))"
proof (cases "currentUser c = None \<or> saveStatus c \<noteq> Idle")
  case True
  with assms show ?thesis
    by (auto simp: handleSaveOf_def sameSave_def split: option.splits)
next
  case False
  have "sameSave (snd (handleSave env (inRender c s))) (snd (handleSave env (inRender c s')))"
    using assms by (intro handleSave_sameSave) (simp_all add: inRender_def)
  with False show ?thesis
    by (auto simp: handleSaveOf_def sameSave_def split: option.splits prod.splits)
qed

subsection \<open>The submission\<close>

text \<open>
  The part of a submission after the upload attempt, run from the state \<open>s\<close> that was
  reached since the state \<open>b\<close> without an alert.
\<close>

lemma afterUpload_cloud_down:
  assumes "currentUser c = Some u" and "saveStatus c = Idle"
    and "cloudDown env" and "\<not> setItemFails env"
    and "parseReports (localReports s) = Some rs"
    and "effects s = effects b @ es" and "filter isAlert es = []"
    and "cloudReports s = cloudReports b"
  shows "submittedLocally env u c fileName rs b (afterUpload env c fileName s)"
proof -
  let ?s1 = "s\<lparr>effects := effects s @ [PdfSave fileName (formData c)]\<rparr>"
  let ?r = "inRender c ?s1"
  have a: "currentUser ?r = Some u" "saveStatus ?r = Idle"
    "parseReports (localReports ?r) = Some rs"
    using assms(1,2,5) by (simp_all add: inRender_def)
  note sv = save_cloud_down [OF a(1,2) assms(3,4) a(3)]
  from sv(9) obtain w rs' where w: "isCloudWrite w"
    "effects (snd (handleSave env ?r)) = effects ?r @ [w, SetItem rs', GetDocs (tech_id u)]"
    by blast
  have nw: "\<not> isAlert w" using w(1) by (cases w) simp_all
  define t where "t = snd (handleSaveOf env c ?s1)"
  have of1: "t = (snd (handleSave env ?r))\<lparr>currentUser := currentUser ?s1,
                                             formData := formData ?s1\<rparr>"
    using assms(1,2) by (simp add: t_def handleSaveOf_def split: prod.splits)
  have f: "saveStatus t = Local" "currentDocId t = Some (determineId env (currentDocId c))"
    "localReports t =
       Stored (upsertReport \<lparr>item_id = determineId env (currentDocId c),
                 timestamp = nowLocal env,
                 data = (formData c)(''techId'' \<mapsto> JStr (tech_id u))\<rparr> rs)"
    "cloudReports t = cloudReports s"
    using sv(2-5) by (simp_all add: of1 inRender_def)
  have e: "effects t = effects s @ [PdfSave fileName (formData c), w, SetItem rs',
                                    GetDocs (tech_id u)]"
    using w(2) by (simp add: of1 inRender_def)
  have au': "afterUpload env c fileName s =
              t\<lparr>effects := effects t @
                     [EmailPrompt (emailSubject (formData c)) (emailBody (formData c))],
                isSubmitting := False\<rparr>"
    by (simp add: afterUpload_def handleOfflineSubmit_def Let_def t_def)
  show ?thesis
    unfolding au' submittedLocally_def newEffects_def
    using f e nw assms(6-8) by simp
qed

lemma sameSave_trans: "sameSave a b \<Longrightarrow> sameSave b c \<Longrightarrow> sameSave a c"
  by (simp add: sameSave_def)

lemma afterUpload_sameSave:
  assumes "localReports s = localReports s'" and "cloudReports s = cloudReports s'"
    and "currentDocId s = currentDocId s'" and "saveStatus s = saveStatus s'"
    and "history s = history s'"
  shows "sameSave (afterUpload env c fileName s) (snd (handleSaveOf env c s'))"
proof -
  let ?s1 = "s\<lparr>effects := effects s @ [PdfSave fileName (formData c)]\<rparr>"
  have "sameSave (snd (handleSaveOf env c ?s1)) (snd (handleSaveOf env c s'))"
    using assms by (intro handleSaveOf_sameSave) simp_all
  then show ?thesis
    by (simp add: afterUpload_def handleOfflineSubmit_def Let_def sameSave_def)
qed


subsection \<open>Sessions\<close>

lemma runFrom_snoc: "runFrom (evs @ [e]) cfg = step (runFrom evs cfg) e"
  by (simp add: runFrom_def)

lemma saveEnvs_append: "saveEnvs (evs @ evs') = saveEnvs evs @ saveEnvs evs'"
  by (induction evs rule: saveEnvs.induct) auto

lemma firstSaveEnv_hd: "firstSaveEnv evs env' = (case saveEnvs evs of [] \<Rightarrow> env' | e # es \<Rightarrow> e)"
  by (induction evs env' rule: firstSaveEnv.induct) auto

lemma session_inv_run:
  assumes "currentUser s0 = Some u" and "currentDocId s0 = None" and "saveStatus s0 = Idle"
    and "parseReports (localReports s0) = Some rs0" and "distinct (map item_id rs0)"
    and "\<forall>e \<in> set evs. \<not> isSubmission e"
    and "\<forall>env \<in> set (saveEnvs evs). cloudDown env \<and> \<not> setItemFails env"
  shows "\<exists>s. runFrom evs (s0, None) = (s, None) \<and> session_inv u s0 evs s"
  using assms(6,7)
proof (induction evs rule: rev_induct)
  case Nil
  show ?case using assms(1-5) by (simp add: session_inv_def runFrom_def)
next
  case (snoc e evs)
  then obtain s where cfg: "runFrom evs (s0, None) = (s, None)"
    and inv: "session_inv u s0 evs s"
    by (auto simp: saveEnvs_append)
  from snoc.prems(1) have nosub: "\<not> isSubmission e" by simp
  show ?case
  proof (cases e)
    case StatusTimeout
    have "runFrom (evs @ [e]) (s0, None) = (saveStatusTimeout s, None)"
      by (simp add: runFrom_snoc cfg StatusTimeout)
    moreover have "session_inv u s0 (evs @ [e]) (saveStatusTimeout s)"
      using inv StatusTimeout
      by (auto simp: session_inv_def saveEnvs_append saveStatusTimeout_def split: list.splits)
    ultimately show ?thesis by blast
  next
    case (InputChange f v)
    have "runFrom (evs @ [e]) (s0, None) = (handleInputChange f v s, None)"
      by (simp add: runFrom_snoc cfg InputChange)
    moreover have "session_inv u s0 (evs @ [e]) (handleInputChange f v s)"
      using inv InputChange
      by (auto simp: session_inv_def saveEnvs_append handleInputChange_def split: list.splits)
    ultimately show ?thesis by blast
  next
    case (SubmitClick env)
    with nosub show ?thesis by simp
  next
    case (UploadSettled env)
    with nosub show ?thesis by simp
  next
    case (SaveClick env)
    with snoc.prems have down: "cloudDown env" "\<not> setItemFails env"
      by (simp_all add: saveEnvs_append)
    from inv obtain rs where rs: "parseReports (localReports s) = Some rs"
      "distinct (map item_id rs)"
      and u: "currentUser s = Some u"
      by (auto simp: session_inv_def)
    have st: "runFrom (evs @ [e]) (s0, None) = (snd (handleSave env s), None)"
      by (simp add: runFrom_snoc cfg SaveClick)
    have "session_inv u s0 (evs @ [e]) (snd (handleSave env s))"
    proof (cases "saveStatus s = Idle")
      case False
      then have "handleSave env s = (None, s)"
        by (auto simp: handleSave_def split: option.splits)
      with inv False SaveClick show ?thesis
        by (auto simp: session_inv_def saveEnvs_append split: list.splits)
    next
      case True
      note sv = save_cloud_down [OF u True down rs(1)]
      have "\<exists>rs'. parseReports (localReports (snd (handleSave env s))) = Some rs'
                \<and> distinct (map item_id rs')"
        using sv(4) rs(2) by (simp add: parseReports_def upsertReport_distinct)
      then show ?thesis
        using inv SaveClick sv(3,5,6)
        by (auto simp: session_inv_def saveEnvs_append determineId_def split: list.splits)
    qed
    with st show ?thesis by blast
  qed
qed

text \<open>
  In a session of saves, edits and timers with the cloud down throughout, each save that
  passes the guard replaces or adds exactly the report of the bound id, which is the id
  minted by the first save, and the history shows that report once.
\<close>

lemma cloud_down_saves:
  assumes "currentUser s0 = Some u" and "currentDocId s0 = None" and "saveStatus s0 = Idle"
    and "parseReports (localReports s0) = Some rs0" and "distinct (map item_id rs0)"
    and "\<forall>e \<in> set evs. \<not> isSubmission e"
    and "\<forall>env \<in> set (saveEnvs evs @ [env']). cloudDown env \<and> \<not> setItemFails env"
    and "saveStatus (run evs s0) = Idle"
  shows "\<exists>rs rs'.
           parseReports (localReports (run evs s0)) = Some rs
         \<and> fst (handleSave env' (run evs s0)) = None
         \<and> saveStatus (snd (handleSave env' (run evs s0))) = Local
         \<and> currentDocId (snd (handleSave env' (run evs s0))) =
             Some (''local_draft_'' @ numToString (nowMint (firstSaveEnv evs env')))
         \<and> (currentDocId (run evs s0) = None \<or>
             currentDocId (run evs s0) = currentDocId (snd (handleSave env' (run evs s0))))
         \<and> localReports (snd (handleSave env' (run evs s0))) = Stored rs'
         \<and> filter (\<lambda>r. item_id r =
                      ''local_draft_'' @ numToString (nowMint (firstSaveEnv evs env'))) rs'
             = [\<lparr>item_id = ''local_draft_'' @ numToString (nowMint (firstSaveEnv evs env')),
                 timestamp = nowLocal env',
                 data = (formData (run evs s0))(''techId'' \<mapsto> JStr (tech_id u))\<rparr>]
         \<and> filter (\<lambda>r. item_id r \<noteq>
                      ''local_draft_'' @ numToString (nowMint (firstSaveEnv evs env'))) rs'
             = filter (\<lambda>r. item_id r \<noteq>
                      ''local_draft_'' @ numToString (nowMint (firstSaveEnv evs env'))) rs
         \<and> cloudReports (snd (handleSave env' (run evs s0))) = cloudReports s0
         \<and> filter (\<lambda>x. item_id x =
                      ''local_draft_'' @ numToString (nowMint (firstSaveEnv evs env')))
                  (history (snd (handleSave env' (run evs s0))))
             = [\<lparr>item_id = ''local_draft_'' @ numToString (nowMint (firstSaveEnv evs env')),
                 timestamp = nowLocal env',
                 data = (formData (run evs s0))(''techId'' \<mapsto> JStr (tech_id u))\<rparr>]"
proof -
  let ?s = "run evs s0"
  let ?s' = "snd (handleSave env' ?s)"
  let ?d = "''local_draft_'' @ numToString (nowMint (firstSaveEnv evs env'))"
  let ?r = "\<lparr>item_id = ?d, timestamp = nowLocal env',
             data = (formData ?s)(''techId'' \<mapsto> JStr (tech_id u))\<rparr>"
  have inv: "session_inv u s0 evs ?s"
    using session_inv_run [OF assms(1-6)] assms(7) by (auto simp: run_def)
  then obtain rs where rs: "parseReports (localReports ?s) = Some rs"
    "distinct (map item_id rs)"
    and u: "currentUser ?s = Some u" and cl: "cloudReports ?s = cloudReports s0"
    by (auto simp: session_inv_def)
  have down: "cloudDown env'" "\<not> setItemFails env'" using assms(7) by auto
  note sv = save_cloud_down [OF u assms(8) down rs(1)]
  have d: "determineId env' (currentDocId ?s) = ?d"
    and same: "currentDocId ?s = None \<or> currentDocId ?s = Some ?d"
    using inv by (auto simp: session_inv_def determineId_def firstSaveEnv_hd split: list.splits)
  have loc: "localReports ?s' = Stored (upsertReport ?r rs)"
    using sv(4) d by simp
  have one: "filter (\<lambda>r. item_id r = ?d) (upsertReport ?r rs) = [?r]"
    using upsertReport_one [OF rs(2), of ?r] by simp
  have others: "filter (\<lambda>r. item_id r \<noteq> ?d) (upsertReport ?r rs)
                = filter (\<lambda>r. item_id r \<noteq> ?d) rs"
    using upsertReport_others [of ?r rs] by simp
  have "?r \<in> set (usersLocalReports u (localReports ?s'))"
    by (simp add: loc usersLocalReports_def upsertReport_mem)
  from history_single [OF this]
  obtain g where g: "g \<in> set (usersLocalReports u (localReports ?s'))"
    "filter (\<lambda>x. item_id x = ?d) (history ?s') = [g]"
    using sv(8) by auto
  have "g \<in> set (filter (\<lambda>x. item_id x = ?d) (history ?s'))" using g(2) by simp
  then have gid: "item_id g = ?d" by simp
  have "g \<in> set (upsertReport ?r rs)" using g(1) by (simp add: loc usersLocalReports_def)
  with gid have "g \<in> set (filter (\<lambda>r. item_id r = ?d) (upsertReport ?r rs))" by simp
  then have "g = ?r" unfolding one by simp
  with g(2) have hist: "filter (\<lambda>x. item_id x = ?d) (history ?s') = [?r]" by simp
  show ?thesis
    using rs(1) sv(1,2) sv(3) d same loc one others sv(5) cl hist by auto
qed

subsection \<open>Evaluation of the concrete sessions\<close>

lemma minted_1000: "numToString 1000 = ''1000''"
  by code_simp

lemma minted_2000: "numToString 2000 = ''2000''"
  by code_simp

lemma minted_999: "numToString 999 = ''999''"
  by code_simp

lemma acmeForm_fields:
  "acmeForm ''techId'' = None" "acmeForm ''timestamp'' = None"
  "acmeForm ''techSignature'' = Some JNull" "acmeForm ''shopName'' = Some (JStr ''Acme'')"
  "acmeForm ''date'' = Some (JStr ''2026-01-05'')"
  "acmeForm ''techName'' = Some (JStr ''Reon Samuel'')"
  by (simp_all add: acmeForm_def INITIAL_DATA_def)

lemmas model_defs = run_def runFrom_def handleSave_def determineId_def cloudAttempt_def
  addDoc_def updateDoc_def saveToLocalStorage_def parseReports_def loadHistory_def
  combinedHistory_def cloudItems_def usersLocalReports_def queryDocs_def toHistoryItem_def
  sortNewestFirst_def uniqueHistory_def new_Map_def map_values_def upsertReport_def
  withTechId_def startsWith_def saveStatusTimeout_def handleInputChange_def
  updateFields_def Let_def newEffects_def cloudWrites_def cloudDown_def

lemmas submit_defs = handleSubmit_def submitClick_def uploadSettled_def afterUpload_def
  handleOfflineSubmit_def handleSaveOf_def inRender_def alert_def fileNameOf_def isSpace_def

lemmas sample_defs = acmeForm_fields sampleTech_def freshSession_def cloudFailing_def
  cloudWorking_def minted_1000 minted_999

section \<open>Routing of a save\<close>

text \<open>
  C1.  A save that passes the guard (a technician is logged in, the status is idle) with a
  bound id, that is a non-empty string:
  if the id starts with \<^verbatim>\<open>local_\<close>, the one cloud write attempted is a create of the
  form data with the technician's id, and when the create resolves the binding becomes
  the id the server assigned and the status is \<^verbatim>\<open>success\<close>;
  otherwise the one cloud write attempted is an update of the document with exactly the
  bound id, and when it resolves the binding is the same id and the status is
  \<^verbatim>\<open>success\<close>.  In both cases no exception leaves the function.
\<close>

theorem handleSave_routing:
  assumes "currentUser s = Some u" and "saveStatus s = Idle"
    and "currentDocId s = Some d" and "d \<noteq> []"
  shows "(startsWith d ''local_'' \<longrightarrow>
            cloudWrites (newEffects s (snd (handleSave env s))) =
              [AddDoc ((formData s)(''techId'' \<mapsto> JStr (tech_id u),
                                    ''timestamp'' \<mapsto> JServerTimestamp))]
            \<and> (\<forall>newId. addDocId env = Some newId \<longrightarrow>
                  fst (handleSave env s) = None
                  \<and> currentDocId (snd (handleSave env s)) = Some newId
                  \<and> saveStatus (snd (handleSave env s)) = Success))
       \<and> (\<not> startsWith d ''local_'' \<longrightarrow>
            cloudWrites (newEffects s (snd (handleSave env s))) =
              [UpdateDoc d ((formData s)(''timestamp'' \<mapsto> JServerTimestamp))]
            \<and> (\<not> updateDocFails env \<and> d \<in> doc_id ` set (cloudReports s) \<longrightarrow>
                  fst (handleSave env s) = None
                  \<and> currentDocId (snd (handleSave env s)) = Some d
                  \<and> saveStatus (snd (handleSave env s)) = Success))"
  using assms
  by (auto simp: handleSave_def determineId_def cloudAttempt_def addDoc_def updateDoc_def
      saveToLocalStorage_def Let_def cloudWrites_def newEffects_def effects_loadHistory
      split: option.splits)

theorem handleSave_routing_witness:
  "(currentUser boundToDraft = Some sampleTech \<and> saveStatus boundToDraft = Idle
    \<and> currentDocId boundToDraft = Some ''local_draft_1000'' \<and> ''local_draft_1000'' \<noteq> []
    \<and> startsWith ''local_draft_1000'' ''local_'' \<and> addDocId cloudWorking = Some ''Zx81QmT4''
    \<and> currentDocId (snd (handleSave cloudWorking boundToDraft)) = Some ''Zx81QmT4''
    \<and> saveStatus (snd (handleSave cloudWorking boundToDraft)) = Success)
   \<and> (currentUser boundToCloud = Some sampleTech \<and> saveStatus boundToCloud = Idle
    \<and> currentDocId boundToCloud = Some ''Zx81QmT4'' \<and> ''Zx81QmT4'' \<noteq> []
    \<and> \<not> startsWith ''Zx81QmT4'' ''local_'' \<and> \<not> updateDocFails cloudWorking
    \<and> ''Zx81QmT4'' \<in> doc_id ` set (cloudReports boundToCloud)
    \<and> currentDocId (snd (handleSave cloudWorking boundToCloud)) = Some ''Zx81QmT4''
    \<and> saveStatus (snd (handleSave cloudWorking boundToCloud)) = Success)"
proof -
  have a: "currentUser boundToDraft = Some sampleTech" "saveStatus boundToDraft = Idle"
    "currentDocId boundToDraft = Some ''local_draft_1000''" "''local_draft_1000'' \<noteq> []"
    by (simp_all add: model_defs sample_defs boundToDraft_def)
  have a': "startsWith ''local_draft_1000'' ''local_''" "addDocId cloudWorking = Some ''Zx81QmT4''"
    by (simp_all add: startsWith_def cloudWorking_def)
  have b: "currentUser boundToCloud = Some sampleTech" "saveStatus boundToCloud = Idle"
    "currentDocId boundToCloud = Some ''Zx81QmT4''" "''Zx81QmT4'' \<noteq> []"
    by (simp_all add: model_defs sample_defs boundToCloud_def)
  have b': "\<not> startsWith ''Zx81QmT4'' ''local_''" "\<not> updateDocFails cloudWorking"
    "''Zx81QmT4'' \<in> doc_id ` set (cloudReports boundToCloud)"
    by (simp_all add: model_defs sample_defs boundToCloud_def)
  show ?thesis
    using a a' b b' handleSave_routing [OF a, of cloudWorking]
      handleSave_routing [OF b, of cloudWorking]
    by blast
qed

section \<open>Repeated saves\<close>

text \<open>
  C2.  Repeated saves of one session should all affect one logical document, so that
  the merged history never holds more than one record of it.  The session below saves
  twice: the first save finds the cloud down and stores the form on the device under the
  minted id \<^verbatim>\<open>local_draft_1000\<close>; the second, with the cloud back, creates a cloud
  document, rebinds the session to the server's id and leaves the device copy where it
  is.  The history then lists the one form twice, under two ids.
\<close>

theorem repeat_save_duplicates:
  "currentDocId (run [SaveClick cloudFailing] freshSession) = Some ''local_draft_1000''
   \<and> currentDocId (run [SaveClick cloudFailing, StatusTimeout, SaveClick cloudWorking]
                      freshSession) = Some ''Zx81QmT4''
   \<and> map item_id (history (run [SaveClick cloudFailing, StatusTimeout, SaveClick cloudWorking]
                              freshSession)) = [''Zx81QmT4'', ''local_draft_1000'']
   \<and> map (\<lambda>h. data h ''shopName'')
        (history (run [SaveClick cloudFailing, StatusTimeout, SaveClick cloudWorking]
                    freshSession)) = [Some (JStr ''Acme''), Some (JStr ''Acme'')]"
  by code_simp

section \<open>A session without the cloud\<close>

text \<open>
  C3.  In a session in which every cloud call fails, every save should fall back to a
  local upsert under the bound id, and that id, minted by the first save, should never
  change, so that the device and the history hold one copy.  In the session below the
  technician has signed and presses submit while no document is bound; the upload is
  under way when the technician presses save, which mints \<^verbatim>\<open>local_draft_1000\<close>, binds
  it and stores the form under it; then the upload fails and the submission goes on with
  the \<^verbatim>\<open>handleSave\<close> of the render of the submit click, in which nothing was bound:
  it mints \<^verbatim>\<open>local_draft_2000\<close>, rebinds the session and appends a second report.
  The device and the history hold the form twice, and the cloud holds nothing.
\<close>

theorem stale_submit_second_draft:
  "currentDocId (run [SubmitClick cloudFailing, SaveClick cloudFailing] signedSession)
     = Some ''local_draft_1000''
   \<and> currentDocId (run [SubmitClick cloudFailing, SaveClick cloudFailing,
                         UploadSettled laterFailing] signedSession)
     = Some ''local_draft_2000''
   \<and> saveStatus (run [SubmitClick cloudFailing, SaveClick cloudFailing,
                       UploadSettled laterFailing] signedSession) = Local
   \<and> map_option (map item_id)
        (parseReports (localReports (run [SubmitClick cloudFailing, SaveClick cloudFailing,
                                          UploadSettled laterFailing] signedSession)))
     = Some [''local_draft_1000'', ''local_draft_2000'']
   \<and> map item_id (history (run [SubmitClick cloudFailing, SaveClick cloudFailing,
                                 UploadSettled laterFailing] signedSession))
     = [''local_draft_2000'', ''local_draft_1000'']
   \<and> map (\<lambda>h. data h ''shopName'')
        (history (run [SubmitClick cloudFailing, SaveClick cloudFailing,
                       UploadSettled laterFailing] signedSession))
     = [Some (JStr ''Acme''), Some (JStr ''Acme'')]
   \<and> map doc_id (cloudReports (run [SubmitClick cloudFailing, SaveClick cloudFailing,
                                     UploadSettled laterFailing] signedSession)) = []"
  by (simp add: model_defs submit_defs sample_defs signedSession_def sampleSignature_def
      laterFailing_def minted_2000)

section \<open>The owner of a persisted record\<close>


section \<open>Failure of the local fallback\<close>

text \<open>
  C5.  A failure of the device's storage during the fallback should be reported by the
  save, and no exception should leave it.  Here the cloud is unreachable and the storage
  is full: the exception of \<^verbatim>\<open>setItem\<close> leaves \<^verbatim>\<open>handleSave\<close>, nothing is stored,
  and the status stays that of a save in progress, since the lines that set it and that
  start the reset timer are never reached.
\<close>

theorem local_failure_escapes:
  "fst (handleSave storageFull freshSession) = Some QuotaExceededError
   \<and> saveStatus (snd (handleSave storageFull freshSession)) = Saving
   \<and> parseReports (localReports (snd (handleSave storageFull freshSession))) = Some []
   \<and> cloudReports (snd (handleSave storageFull freshSession)) = []"
  by (simp add: model_defs sample_defs storageFull_def)

section \<open>The merged history\<close>

text \<open>
  C6.  Every history view \<^verbatim>\<open>loadHistory\<close> produces for a logged-in technician has
  pairwise distinct ids; and when a report of the technician on the device and a document
  of the technician in the cloud have the same id, the view has exactly one entry with
  that id.
\<close>

theorem loadHistory_ids_unique:
  assumes "currentUser s = Some u"
  shows "distinct (map item_id (history (loadHistory env s)))
       \<and> (\<forall>rs l c. localReports s = Stored rs \<and> l \<in> set rs
             \<and> data l ''techId'' = Some (JStr (tech_id u))
             \<and> c \<in> set (cloudReports s) \<and> doc_data c ''techId'' = Some (JStr (tech_id u))
             \<and> doc_id c = item_id l
           \<longrightarrow> length (filter (\<lambda>h. item_id h = item_id l)
                          (history (loadHistory env s))) = 1)"
proof -
  have h: "history (loadHistory env s) =
             uniqueHistory (sortNewestFirst (combinedHistory env u s))"
    using assms by (simp add: loadHistory_def)
  have "l \<in> set (combinedHistory env u s)"
    if "localReports s = Stored rs" "l \<in> set rs"
      "data l ''techId'' = Some (JStr (tech_id u))" for l rs
    using that by (simp add: combinedHistory_def usersLocalReports_def split: option.splits)
  then have "length (filter (\<lambda>h. item_id h = item_id l) (history (loadHistory env s))) = 1"
    if "localReports s = Stored rs" "l \<in> set rs"
      "data l ''techId'' = Some (JStr (tech_id u))" for l rs
    using that history_single [of l "combinedHistory env u s"] unfolding h by fastforce
  then show ?thesis
    unfolding h using uniqueHistory_distinct by blast
qed

theorem loadHistory_ids_unique_witness:
  "currentUser twoDocuments = Some sampleTech
   \<and> localReports twoDocuments = Stored [localCopy] \<and> localCopy \<in> set [localCopy]
   \<and> data localCopy ''techId'' = Some (JStr (tech_id sampleTech))
   \<and> cloudCopy \<in> set (cloudReports twoDocuments)
   \<and> doc_data cloudCopy ''techId'' = Some (JStr (tech_id sampleTech))
   \<and> doc_id cloudCopy = item_id localCopy
   \<and> distinct (map item_id (history (loadHistory cloudWorking twoDocuments)))
   \<and> length (filter (\<lambda>h. item_id h = item_id localCopy)
               (history (loadHistory cloudWorking twoDocuments))) = 1"
proof -
  have a: "currentUser twoDocuments = Some sampleTech"
    by (simp add: twoDocuments_def)
  have b: "localReports twoDocuments = Stored [localCopy]" "localCopy \<in> set [localCopy]"
    "cloudCopy \<in> set (cloudReports twoDocuments)"
    by (simp_all add: twoDocuments_def)
  have c: "data localCopy ''techId'' = Some (JStr (tech_id sampleTech))"
    "doc_data cloudCopy ''techId'' = Some (JStr (tech_id sampleTech))"
    "doc_id cloudCopy = item_id localCopy"
    by (simp_all add: localCopy_def cloudCopy_def sampleTech_def)
  show ?thesis
    using a b c loadHistory_ids_unique [OF a, of cloudWorking]
    by blast
qed

text \<open>
  C7.  The history view should be ordered newest first.  The view is sorted and then
  passed through a \<^verbatim>\<open>Map\<close> keyed by id, in which a later entry of an id takes the
  place of the earlier one.  With the report of time 10 on the device and the cloud
  documents of times 1 and 5, the older cloud copy replaces the report at the head of the
  sorted list, and the view shows time 1 before time 5.
\<close>

theorem history_misordered:
  "map item_id (history (loadHistory cloudWorking twoDocuments)) = [''Zx81QmT4'', ''Yq20LmB7'']
   \<and> map timestamp (history (loadHistory cloudWorking twoDocuments)) = [1, 5]
   \<and> \<not> sorted_wrt (\<lambda>a b. timestamp a \<ge> timestamp b)
         (history (loadHistory cloudWorking twoDocuments))"
  by (simp add: model_defs sample_defs twoDocuments_def localCopy_def cloudCopy_def
      otherDoc_def)

section \<open>Submission\<close>

text \<open>
  C8.  When the technician's signature field of the form is \<^verbatim>\<open>null\<close>,
  \<^verbatim>\<open>handleSubmit\<close> shows the alert that asks for the signature and returns: the alert
  is its only I/O call (no PDF is rendered, nothing is uploaded, no save is made), and the
  state, with the local reports, the cloud collection, the blob store and the document
  binding, is otherwise the one it started from.
\<close>

theorem handleSubmit_unsigned:
  assumes "formData s ''techSignature'' = Some JNull"
  shows "handleSubmit env s =
           s\<lparr>effects := effects s @ [Alert ''Please sign the document before submitting.'']\<rparr>
       \<and> newEffects s (handleSubmit env s) =
           [Alert ''Please sign the document before submitting.'']
       \<and> localReports (handleSubmit env s) = localReports s
       \<and> cloudReports (handleSubmit env s) = cloudReports s
       \<and> blobStore (handleSubmit env s) = blobStore s
       \<and> currentDocId (handleSubmit env s) = currentDocId s"
  using assms by (simp add: handleSubmit_def submitClick_def alert_def newEffects_def)

theorem handleSubmit_unsigned_witness:
  "formData freshSession ''techSignature'' = Some JNull
   \<and> newEffects freshSession (handleSubmit cloudWorking freshSession) =
       [Alert ''Please sign the document before submitting.'']
   \<and> localReports (handleSubmit cloudWorking freshSession) = localReports freshSession
   \<and> cloudReports (handleSubmit cloudWorking freshSession) = cloudReports freshSession"
proof -
  have a: "formData freshSession ''techSignature'' = Some JNull"
    by (simp add: freshSession_def acmeForm_fields)
  show ?thesis
    using a handleSubmit_unsigned [OF a, of cloudWorking] by blast
qed

text \<open>
  C9, as stated: every submission that passes the signature check saves through
  \<^verbatim>\<open>handleSave\<close>, so that with the blob store and the cloud failing a record of the
  submitted form is still stored on the device.  The save inside a submission is subject
  to the guard of \<^verbatim>\<open>handleSave\<close>.  In the session below a save has just fallen back
  to the device, the technician has signed, and the submission comes before the status is
  reset, the cloud being down throughout: the PDF is produced, but the submission
  attempts no cloud write and stores nothing, and the one report on the device is the
  form as it was before the signature.
\<close>

theorem submit_without_save:
  "formData justSaved ''techSignature'' = Some sampleSignature
   \<and> \<not> falsy (formData justSaved ''techSignature'')
   \<and> saveStatus justSaved = Local
   \<and> PdfSave ''ServiceCall_Acme_999.pdf'' (formData justSaved)
       \<in> set (newEffects justSaved (handleSubmit cloudFailing justSaved))
   \<and> cloudWrites (newEffects justSaved (handleSubmit cloudFailing justSaved)) = []
   \<and> map_option (map (\<lambda>r. (item_id r, data r ''techSignature'')))
        (parseReports (localReports (handleSubmit cloudFailing justSaved)))
       = Some [(''local_draft_1000'', Some JNull)]"
  by (simp add: model_defs submit_defs sample_defs justSaved_def sampleSignature_def)

text \<open>
  C9, amended.  A submission passes the signature check with a technician logged in, a
  shop name that is a string and a PDF library that renders the form.  Then, whatever
  the cloud, the blob store and the device answer, it saves as the \<^verbatim>\<open>handleSave\<close> of
  the render of the submit click does: with no other handler in between, it leaves the
  local reports, the cloud collection, the binding, the status and the history as a save
  clicked in place of the submit would; when it uploads, it waits for the upload, and from
  whatever state is reached when the upload settles it leaves them as that
  \<^verbatim>\<open>handleSave\<close> run then does.  If moreover the save status was idle at the click
  and, when the save runs, every cloud call throws while the device's storage can be read
  and written, then the submission hands the rendered document over for download, shows
  no alert, ends with the submitting flag cleared and the status \<^verbatim>\<open>local\<close>, binds
  the id determined from the binding at the click, and upserts the form as it was at the
  click, with the technician's id, into the local reports under that id, the cloud
  collection staying as it is.
\<close>

theorem handleSubmit_saves:
  assumes "\<not> falsy (formData c ''techSignature'')" and "currentUser c = Some u"
    and "fileNameOf env (formData c) = Some fileName" and "renderFails env = None"
  shows "sameSave (handleSubmit env c) (snd (handleSave env c))
       \<and> (storageOnline env \<longrightarrow>
            snd (submitClick env c) =
              Some \<lparr>pendingRender = c, pendingFileName = fileName,
                    pendingPath = ''service_sheets/'' @ tech_id u @ ''/'' @ fileName\<rparr>)
       \<and> (\<forall>env' p s. pendingRender p = c \<longrightarrow>
            sameSave (uploadSettled env' p s) (snd (handleSaveOf env' c s)))
       \<and> (\<forall>rs. saveStatus c = Idle \<and> cloudDown env \<and> \<not> setItemFails env
                 \<and> parseReports (localReports c) = Some rs \<longrightarrow>
            submittedLocally env u c fileName rs c (handleSubmit env c))
       \<and> (\<forall>env' p s rs. pendingRender p = c \<and> pendingFileName p = fileName
                 \<and> saveStatus c = Idle \<and> cloudDown env' \<and> \<not> setItemFails env'
                 \<and> parseReports (localReports s) = Some rs \<longrightarrow>
            submittedLocally env' u c fileName rs s (uploadSettled env' p s))"
proof -
  let ?s2 = "c\<lparr>isSubmitting := True,
               effects := effects c @ [GeneratePDF (formData c)]\<rparr>"
  let ?path = "''service_sheets/'' @ tech_id u @ ''/'' @ fileName"
  let ?s3 = "?s2\<lparr>effects := effects ?s2 @ [UploadBytes ?path (formData c)]\<rparr>"
  let ?p = "\<lparr>pendingRender = c, pendingFileName = fileName, pendingPath = ?path\<rparr>"
  have click: "submitClick env c =
      (if storageOnline env then (?s3, Some ?p) else (afterUpload env c fileName ?s2, None))"
    using assms by (simp add: submitClick_def Let_def)
  let ?live = "if storageOnline env
               then (if uploadFails env then ?s3
                     else ?s3\<lparr>blobStore := blobStore ?s3 @ [(?path, formData c)]\<rparr>)
               else ?s2"
  have whole: "handleSubmit env c = afterUpload env c fileName ?live"
    by (simp add: handleSubmit_def click uploadSettled_def)
  have 1: "sameSave (handleSubmit env c) (snd (handleSave env c))"
    unfolding whole handleSaveOf_current [symmetric, of env c]
    by (rule afterUpload_sameSave) simp_all
  have 2: "storageOnline env \<longrightarrow> snd (submitClick env c) = Some ?p"
    by (simp add: click)
  have 3: "sameSave (uploadSettled env' p s) (snd (handleSaveOf env' c s))"
    if "pendingRender p = c" for env' p s
    unfolding uploadSettled_def that
    by (rule afterUpload_sameSave) simp_all
  have 4: "submittedLocally env u c fileName rs c (handleSubmit env c)"
    if "saveStatus c = Idle" "cloudDown env" "\<not> setItemFails env"
      "parseReports (localReports c) = Some rs" for rs
    unfolding whole
    using assms(2) that
    by (intro afterUpload_cloud_down
          [where es = "if storageOnline env
                       then [GeneratePDF (formData c), UploadBytes ?path (formData c)]
                       else [GeneratePDF (formData c)]"])
       simp_all
  have 5: "submittedLocally env' u c fileName rs s (uploadSettled env' p s)"
    if "pendingRender p = c" "pendingFileName p = fileName" "saveStatus c = Idle"
      "cloudDown env'" "\<not> setItemFails env'" "parseReports (localReports s) = Some rs"
    for env' p s rs
    unfolding uploadSettled_def that(1,2)
    using assms(2) that(3-6)
    by (intro afterUpload_cloud_down [where es = "[]"]) simp_all
  show ?thesis
    using 1 2 3 4 5 by blast
qed

theorem handleSubmit_saves_witness:
  "\<not> falsy (formData signedSession ''techSignature'')
   \<and> currentUser signedSession = Some sampleTech
   \<and> fileNameOf cloudFailing (formData signedSession) = Some ''ServiceCall_Acme_999.pdf''
   \<and> renderFails cloudFailing = None \<and> storageOnline cloudFailing
   \<and> snd (submitClick cloudFailing signedSession) = Some signedPending
   \<and> pendingRender signedPending = signedSession
   \<and> pendingFileName signedPending = ''ServiceCall_Acme_999.pdf''
   \<and> saveStatus signedSession = Idle
   \<and> cloudDown cloudFailing \<and> \<not> setItemFails cloudFailing
   \<and> parseReports (localReports signedSession) = Some []
   \<and> cloudDown laterFailing \<and> \<not> setItemFails laterFailing
   \<and> parseReports (localReports savedMeanwhile) = Some [firstDraft]
   \<and> sameSave (handleSubmit cloudFailing signedSession)
        (snd (handleSave cloudFailing signedSession))
   \<and> sameSave (uploadSettled laterFailing signedPending savedMeanwhile)
        (snd (handleSaveOf laterFailing signedSession savedMeanwhile))
   \<and> submittedLocally cloudFailing sampleTech signedSession ''ServiceCall_Acme_999.pdf'' []
        signedSession (handleSubmit cloudFailing signedSession)
   \<and> submittedLocally laterFailing sampleTech signedSession ''ServiceCall_Acme_999.pdf''
        [firstDraft] savedMeanwhile (uploadSettled laterFailing signedPending savedMeanwhile)"
proof -
  have a: "\<not> falsy (formData signedSession ''techSignature'')"
    "currentUser signedSession = Some sampleTech"
    "fileNameOf cloudFailing (formData signedSession) = Some ''ServiceCall_Acme_999.pdf''"
    "renderFails cloudFailing = None"
    by (simp_all add: model_defs submit_defs sample_defs signedSession_def sampleSignature_def)
  have b: "storageOnline cloudFailing" "saveStatus signedSession = Idle"
    "cloudDown cloudFailing" "\<not> setItemFails cloudFailing"
    "parseReports (localReports signedSession) = Some []"
    "cloudDown laterFailing" "\<not> setItemFails laterFailing"
    by (simp_all add: model_defs sample_defs signedSession_def laterFailing_def)
  have p: "pendingRender signedPending = signedSession"
    "pendingFileName signedPending = ''ServiceCall_Acme_999.pdf''"
    by (simp_all add: signedPending_def)
  have m: "parseReports (localReports savedMeanwhile) = Some [firstDraft]"
    by (simp add: model_defs submit_defs sample_defs savedMeanwhile_def firstDraft_def
        signedSession_def sampleSignature_def)
  note th = handleSubmit_saves [OF a]
  have t1: "sameSave (handleSubmit cloudFailing signedSession)
              (snd (handleSave cloudFailing signedSession))"
    using th by blast
  have t2: "snd (submitClick cloudFailing signedSession) = Some signedPending"
    using th b(1) by (simp add: signedPending_def sampleTech_def)
  have t3: "sameSave (uploadSettled laterFailing signedPending savedMeanwhile)
              (snd (handleSaveOf laterFailing signedSession savedMeanwhile))"
    using th p(1) by blast
  have t4: "submittedLocally cloudFailing sampleTech signedSession
              ''ServiceCall_Acme_999.pdf'' [] signedSession
              (handleSubmit cloudFailing signedSession)"
    using th b(2-5) by blast
  have t5: "submittedLocally laterFailing sampleTech signedSession
              ''ServiceCall_Acme_999.pdf'' [firstDraft] savedMeanwhile
              (uploadSettled laterFailing signedPending savedMeanwhile)"
    using th p b(2,6,7) m by blast
  show ?thesis
    using a b p m t1 t2 t3 t4 t5 by blast
qed

section \<open>Guard of the save operation\<close>

text \<open>
  C10.  With nobody logged in, or with a save status other than idle (a save in progress,
  or the window after a save before the timer resets the status), \<^verbatim>\<open>handleSave\<close>
  returns at once: no exception, and the whole state (local reports, cloud collection,
  document binding, log of I/O calls) is the one it started from.
\<close>

theorem handleSave_guard_noop:
  "currentUser s = None \<or> saveStatus s \<noteq> Idle \<Longrightarrow> handleSave env s = (None, s)"
  by (auto simp: handleSave_def split: option.splits)

theorem handleSave_guard_noop_witness:
  "saveStatus justSaved = Local \<and> handleSave cloudWorking justSaved = (None, justSaved)"
proof -
  have a: "saveStatus justSaved = Local"
    by (simp add: model_defs sample_defs justSaved_def)
  then have b: "currentUser justSaved = None \<or> saveStatus justSaved \<noteq> Idle"
    by simp
  show ?thesis
    using a handleSave_guard_noop [OF b, of cloudWorking] by blast
qed

end
